theory Spec2Isabelle
  imports Main "HOL-Library.AList" "HOL-Library.Sublist"
begin

section \<open>The fast store\<close>

text \<open>
  The inventory service keeps two kinds of keys in Redis: a stock counter per SKU
  (\<^verbatim>\<open>stock:sku:{sku}\<close>) and a reservation per order and SKU
  (\<^verbatim>\<open>reservation:{orderId}:{sku}\<close>, written with an expiry). Both hold integers
  written as decimal strings; the Lua scripts read them with \<^verbatim>\<open>tonumber\<close>, so a value
  is an \<open>int\<close> here.

  The store is an association list from key to (value, deadline), under the names
  Redis sees; the deadline is the instant, in milliseconds, after which the key is
  gone (\<open>None\<close>: the key never expires). The clock \<open>now\<close> is part of the state: a
  script runs at one instant, and \<open>tick\<close> lets time pass between calls. A key whose
  deadline has passed is absent for every command, as in Redis, whether or not its
  entry has been purged yet.

  Quantities are integers within Redis's 64-bit range, and an unreachable store is
  outside the model. The one command of the scripts that Redis can refuse on such
  arguments is \<^verbatim>\<open>SET key value EX ttl\<close>, which fails for \<open>ttl \<le> 0\<close>.
\<close>

type_synonym entry = "int \<times> nat option"

record redis =
  now :: nat
  kv :: "(string \<times> entry) list"

datatype redis_error = InvalidExpireTime

definition expired :: "nat \<Rightarrow> nat option \<Rightarrow> bool" where
  "expired t e = (case e of None \<Rightarrow> False | Some d \<Rightarrow> d < t)"

definition lookup :: "redis \<Rightarrow> string \<Rightarrow> entry option" where
  "lookup s k =
     (case map_of (kv s) k of
        None \<Rightarrow> None
      | Some (v, e) \<Rightarrow> if expired (now s) e then None else Some (v, e))"

definition redis_get :: "redis \<Rightarrow> string \<Rightarrow> int option" where
  "redis_get s k = map_option fst (lookup s k)"

definition redis_exists :: "redis \<Rightarrow> string \<Rightarrow> bool" where
  "redis_exists s k = (lookup s k \<noteq> None)"

definition redis_set :: "redis \<Rightarrow> string \<Rightarrow> int \<Rightarrow> redis" where
  "redis_set s k v = s\<lparr>kv := AList.update k (v, None) (kv s)\<rparr>"

text \<open>
  \<^verbatim>\<open>SET key value EX ttl\<close>. Redis answers a \<open>ttl\<close> of 0 or less with the error
  \<^verbatim>\<open>invalid expire time\<close> and writes nothing; otherwise \<open>put_ex\<close> is the write.
\<close>

definition put_ex :: "redis \<Rightarrow> string \<Rightarrow> int \<Rightarrow> int \<Rightarrow> redis" where
  "put_ex s k v ttl = s\<lparr>kv := AList.update k (v, Some (now s + 1000 * nat ttl)) (kv s)\<rparr>"

definition redis_set_ex :: "redis \<Rightarrow> string \<Rightarrow> int \<Rightarrow> int \<Rightarrow> redis_error + redis" where
  "redis_set_ex s k v ttl = (if ttl \<le> 0 then Inl InvalidExpireTime else Inr (put_ex s k v ttl))"

definition redis_del :: "redis \<Rightarrow> string \<Rightarrow> redis" where
  "redis_del s k = s\<lparr>kv := AList.delete k (kv s)\<rparr>"

text \<open>INCRBY starts from 0 on an absent key and keeps the deadline of a present one.\<close>

definition redis_incrby :: "redis \<Rightarrow> string \<Rightarrow> int \<Rightarrow> redis" where
  "redis_incrby s k n =
     (case lookup s k of
        None \<Rightarrow> s\<lparr>kv := AList.update k (n, None) (kv s)\<rparr>
      | Some (v, e) \<Rightarrow> s\<lparr>kv := AList.update k (v + n, e) (kv s)\<rparr>)"

definition redis_decrby :: "redis \<Rightarrow> string \<Rightarrow> int \<Rightarrow> redis" where
  "redis_decrby s k n = redis_incrby s k (- n)"

text \<open>
  TTL answers -2 for an absent key, -1 for a key without deadline, and otherwise the
  remaining time rounded to the nearest second.
\<close>

definition redis_ttl :: "redis \<Rightarrow> string \<Rightarrow> int" where
  "redis_ttl s k =
     (case lookup s k of
        None \<Rightarrow> - 2
      | Some (v, None) \<Rightarrow> - 1
      | Some (v, Some d) \<Rightarrow> int ((d - now s + 500) div 1000))"

text \<open>KEYS with a pattern \<^verbatim>\<open>p*\<close>: the present keys that start with \<open>p\<close>.\<close>

definition redis_keys :: "redis \<Rightarrow> string \<Rightarrow> string list" where
  "redis_keys s p = filter (\<lambda>k. redis_exists s k \<and> prefix p k) (remdups (map fst (kv s)))"

definition tick :: "nat \<Rightarrow> redis \<Rightarrow> redis" where
  "tick ms s = s\<lparr>now := now s + ms\<rparr>"

definition empty_store :: redis where
  "empty_store = \<lparr>now = 0, kv = []\<rparr>"

section \<open>The Lua scripts\<close>

text \<open>
  A script runs its commands in order. When a command fails (\<^verbatim>\<open>redis.call\<close> raises)
  the script stops there and answers the error; what it has written so far stays
  written. A script's result is the error or the reply, and the store it leaves.
\<close>

text \<open>\<^verbatim>\<open>tonumber(redis.call("GET", key) or "0")\<close>\<close>

definition get_or_zero :: "redis \<Rightarrow> string \<Rightarrow> int" where
  "get_or_zero s k = (case redis_get s k of None \<Rightarrow> 0 | Some v \<Rightarrow> v)"

text \<open>
  \<^verbatim>\<open>reserve-stock.lua\<close>: KEYS[1] the stock key, KEYS[2] the reservation key, ARGV[1]
  the quantity, ARGV[2] the TTL in seconds. The reply is \<open>(1, stock - qty)\<close> or
  \<open>(0, stock)\<close>. DECRBY runs before SET.
\<close>

definition reserve_stock_lua ::
  "redis \<Rightarrow> string \<Rightarrow> string \<Rightarrow> int \<Rightarrow> int \<Rightarrow> (redis_error + int \<times> int) \<times> redis" where
  "reserve_stock_lua s key1 key2 qty ttl =
     (let stock = get_or_zero s key1 in
      if stock \<ge> qty
      then (let s1 = redis_decrby s key1 qty in
            case redis_set_ex s1 key2 qty ttl of
              Inl err \<Rightarrow> (Inl err, s1)
            | Inr s2 \<Rightarrow> (Inr (1, stock - qty), s2))
      else (Inr (0, stock), s))"

text \<open>\<^verbatim>\<open>release-reservation.lua\<close>: the reply is (flag, released quantity, stock).\<close>

definition release_reservation_lua ::
  "redis \<Rightarrow> string \<Rightarrow> string \<Rightarrow> (int \<times> int \<times> int) \<times> redis" where
  "release_reservation_lua s key1 key2 =
     (case redis_get s key2 of
        Some qty \<Rightarrow>
          (let s1 = redis_incrby s key1 qty;
               s2 = redis_del s1 key2;
               newStock = get_or_zero s2 key1
           in ((1, qty, newStock), s2))
      | None \<Rightarrow> ((0, 0, get_or_zero s key1), s))"

text \<open>\<^verbatim>\<open>commit-reservation.lua\<close>: the reply is (flag, committed quantity, stock).\<close>

definition commit_reservation_lua ::
  "redis \<Rightarrow> string \<Rightarrow> string \<Rightarrow> (int \<times> int \<times> int) \<times> redis" where
  "commit_reservation_lua s key1 key2 =
     (case redis_get s key2 of
        Some qty \<Rightarrow>
          (let s1 = redis_del s key2;
               currentStock = get_or_zero s1 key1
           in ((1, qty, currentStock), s1))
      | None \<Rightarrow> ((0, 0, get_or_zero s key1), s))"

text \<open>
  \<^verbatim>\<open>batch-reserve-stock.lua\<close>. KEYS alternates stock key and reservation key, ARGV
  alternates quantity and TTL at the same indices, and the loop steps by two: one
  4-tuple (stock key, reservation key, quantity, TTL) per item here. The first pass
  only reads; it fills \<open>results\<close> with (stock key as received, flag, stock, quantity)
  for every item and \<open>reservations\<close> with the items that passed. The second pass runs
  only when every item passed, DECRBY then SET per item, and stops at the first SET
  that Redis refuses.
\<close>

type_synonym batch_item = "string \<times> string \<times> int \<times> int"

fun batch_check ::
  "redis \<Rightarrow> batch_item list \<Rightarrow> bool \<times> (string \<times> int \<times> int \<times> int) list \<times> batch_item list" where
  "batch_check s [] = (True, [], [])"
| "batch_check s ((stockKey, reservationKey, qty, ttl) # rest) =
     (let stock = get_or_zero s stockKey;
          (allSuccess, results, reservations) = batch_check s rest
      in if stock < qty
         then (False, (stockKey, 0, stock, qty) # results, reservations)
         else (allSuccess, (stockKey, 1, stock, qty) # results,
               (stockKey, reservationKey, qty, ttl) # reservations))"

fun batch_apply :: "redis \<Rightarrow> batch_item list \<Rightarrow> redis_error option \<times> redis" where
  "batch_apply s [] = (None, s)"
| "batch_apply s ((stockKey, reservationKey, qty, ttl) # rest) =
     (let s1 = redis_decrby s stockKey qty in
      case redis_set_ex s1 reservationKey qty ttl of
        Inl err \<Rightarrow> (Some err, s1)
      | Inr s2 \<Rightarrow> batch_apply s2 rest)"

text \<open>The second pass when no SET is refused.\<close>

fun batch_writes :: "redis \<Rightarrow> batch_item list \<Rightarrow> redis" where
  "batch_writes s [] = s"
| "batch_writes s ((stockKey, reservationKey, qty, ttl) # rest) =
     batch_writes (put_ex (redis_decrby s stockKey qty) reservationKey qty ttl) rest"

definition batch_reserve_stock_lua ::
  "redis \<Rightarrow> batch_item list \<Rightarrow>
   (redis_error + int \<times> (string \<times> int \<times> int \<times> int) list) \<times> redis" where
  "batch_reserve_stock_lua s items =
     (let (allSuccess, results, reservations) = batch_check s items in
      if allSuccess
      then (case batch_apply s reservations of
              (Some err, s') \<Rightarrow> (Inl err, s')
            | (None, s') \<Rightarrow> (Inr (1, results), s'))
      else (Inr (0, results), s))"

section \<open>The client\<close>

text \<open>
  \<^verbatim>\<open>config.redis.keyPrefix\<close> is \<^verbatim>\<open>process.env.REDIS_KEY_PREFIX || 'aether:'\<close>: an unset or
  empty variable gives \<^verbatim>\<open>aether:\<close>, so the prefix is never empty. The client is created
  with it and puts it in front of every key argument it sends: the keys of GET, SET,
  DEL, EXISTS and TTL, and the KEYS of EVALSHA. It leaves a KEYS pattern as it is,
  and it does not take the prefix off key names in replies. Every function of the
  service below takes the prefix as its first argument.
\<close>

definition keyPrefix :: "string option \<Rightarrow> string" where
  "keyPrefix env =
     (case env of None \<Rightarrow> ''aether:'' | Some v \<Rightarrow> if v = [] then ''aether:'' else v)"

section \<open>InventoryService\<close>

definition getStockKey :: "string \<Rightarrow> string" where
  "getStockKey sku = ''stock:sku:'' @ sku"

definition getReservationKey :: "string \<Rightarrow> string \<Rightarrow> string" where
  "getReservationKey orderId sku = ''reservation:'' @ orderId @ '':'' @ sku"

text \<open>JavaScript's \<^verbatim>\<open>s.replace(pat, rep)\<close> with a string pattern: the first occurrence.\<close>

fun replace_first :: "string \<Rightarrow> string \<Rightarrow> string \<Rightarrow> string" where
  "replace_first pat rep [] = (if pat = [] then rep else [])"
| "replace_first pat rep (c # cs) =
     (if prefix pat (c # cs) then rep @ drop (length pat) (c # cs)
      else c # replace_first pat rep cs)"

definition extractSkuFromStockKey :: "string \<Rightarrow> string" where
  "extractSkuFromStockKey stockKey = replace_first ''stock:sku:'' [] stockKey"

definition initializeStock :: "string \<Rightarrow> redis \<Rightarrow> string \<Rightarrow> int \<Rightarrow> int \<times> redis" where
  "initializeStock p s sku quantity = (quantity, redis_set s (p @ getStockKey sku) quantity)"

definition getStock :: "string \<Rightarrow> redis \<Rightarrow> string \<Rightarrow> int" where
  "getStock p s sku = (case redis_get s (p @ getStockKey sku) of None \<Rightarrow> 0 | Some v \<Rightarrow> v)"

text \<open>
  The objects the service returns, one constructor per shape. \<^verbatim>\<open>expiresAt\<close> is read
  from the caller's clock after the call and is left out. A call whose script failed
  throws: \<^verbatim>\<open>reserveStock\<close> and \<^verbatim>\<open>batchReserveStock\<close> catch the error, log it and throw
  it again, which is \<open>Inl\<close> here.
\<close>

datatype reserve_result =
  ReserveSuccess int int string
| ReserveFailure int int

datatype release_result =
  ReleaseSuccess int int
| ReleaseFailure int

datatype commit_result =
  CommitSuccess int int
| CommitFailure int

record item_result =
  sku_of :: string
  success_of :: bool
  availableStock_of :: int
  requestedQuantity_of :: int

datatype batch_result =
  BatchSuccess "item_result list"
| BatchFailure "item_result list"

text \<open>
  \<open>ReserveSuccess reservedQuantity remainingStock reservationKey\<close>,
  \<open>ReserveFailure availableStock requestedQuantity\<close>.
\<close>

definition reserveStock ::
  "string \<Rightarrow> redis \<Rightarrow> string \<Rightarrow> string \<Rightarrow> int \<Rightarrow> int \<Rightarrow>
   (redis_error + reserve_result) \<times> redis" where
  "reserveStock p s orderId sku quantity ttlSeconds =
     (let stockKey = getStockKey sku;
          reservationKey = getReservationKey orderId sku
      in case reserve_stock_lua s (p @ stockKey) (p @ reservationKey) quantity ttlSeconds of
           (Inl err, s') \<Rightarrow> (Inl err, s')
         | (Inr (success, remainingStock), s') \<Rightarrow>
             if success \<noteq> 0
             then (Inr (ReserveSuccess quantity remainingStock reservationKey), s')
             else (Inr (ReserveFailure remainingStock quantity), s'))"

text \<open>\<open>ReleaseSuccess releasedQuantity newStock\<close>, \<open>ReleaseFailure currentStock\<close>.\<close>

definition releaseReservation ::
  "string \<Rightarrow> redis \<Rightarrow> string \<Rightarrow> string \<Rightarrow> release_result \<times> redis" where
  "releaseReservation p s orderId sku =
     (let stockKey = getStockKey sku;
          reservationKey = getReservationKey orderId sku;
          ((success, releasedQuantity, newStock), s') =
             release_reservation_lua s (p @ stockKey) (p @ reservationKey)
      in if success \<noteq> 0
         then (ReleaseSuccess releasedQuantity newStock, s')
         else (ReleaseFailure newStock, s'))"

text \<open>\<open>CommitSuccess committedQuantity remainingStock\<close>, \<open>CommitFailure currentStock\<close>.\<close>

definition commitReservation ::
  "string \<Rightarrow> redis \<Rightarrow> string \<Rightarrow> string \<Rightarrow> commit_result \<times> redis" where
  "commitReservation p s orderId sku =
     (let stockKey = getStockKey sku;
          reservationKey = getReservationKey orderId sku;
          ((success, committedQuantity, remainingStock), s') =
             commit_reservation_lua s (p @ stockKey) (p @ reservationKey)
      in if success \<noteq> 0
         then (CommitSuccess committedQuantity remainingStock, s')
         else (CommitFailure remainingStock, s'))"

text \<open>
  An item of a batch is (sku, quantity). The loop that fills \<^verbatim>\<open>keys\<close> and
  \<^verbatim>\<open>args\<close> pushes, per item, the stock key, the reservation key, the quantity and
  the batch's TTL; the client then prefixes the keys. The script's \<open>results\<close> carry
  the stock keys as the script received them, prefix included, and
  \<^verbatim>\<open>extractSkuFromStockKey\<close> is applied to those.
\<close>

definition batch_args ::
  "string \<Rightarrow> string \<Rightarrow> int \<Rightarrow> (string \<times> int) list \<Rightarrow> batch_item list" where
  "batch_args p orderId ttlSeconds items =
     map (\<lambda>(sku, quantity).
            (p @ getStockKey sku, p @ getReservationKey orderId sku, quantity, ttlSeconds)) items"

definition batchReserveStock ::
  "string \<Rightarrow> redis \<Rightarrow> string \<Rightarrow> (string \<times> int) list \<Rightarrow> int \<Rightarrow>
   (redis_error + batch_result) \<times> redis" where
  "batchReserveStock p s orderId items ttlSeconds =
     (case batch_reserve_stock_lua s (batch_args p orderId ttlSeconds items) of
        (Inl err, s') \<Rightarrow> (Inl err, s')
      | (Inr (allSuccess, results), s') \<Rightarrow>
          (let reservationResults =
                 map (\<lambda>(stockKey, success, available, requested).
                        \<lparr>sku_of = extractSkuFromStockKey stockKey,
                         success_of = (success = 1),
                         availableStock_of = available,
                         requestedQuantity_of = requested\<rparr>) results
           in if allSuccess \<noteq> 0
              then (Inr (BatchSuccess reservationResults), s')
              else (Inr (BatchFailure reservationResults), s')))"

definition hasReservation :: "string \<Rightarrow> redis \<Rightarrow> string \<Rightarrow> string \<Rightarrow> bool" where
  "hasReservation p s orderId sku = redis_exists s (p @ getReservationKey orderId sku)"

text \<open>
  \<^verbatim>\<open>getReservation\<close>: the quantity and the remaining TTL, or nothing. The test
  \<^verbatim>\<open>!quantity\<close> is on the stored string, which is never empty.
\<close>

definition getReservation ::
  "string \<Rightarrow> redis \<Rightarrow> string \<Rightarrow> string \<Rightarrow> (int \<times> int) option" where
  "getReservation p s orderId sku =
     (let reservationKey = p @ getReservationKey orderId sku in
      case redis_get s reservationKey of
        None \<Rightarrow> None
      | Some quantity \<Rightarrow> Some (quantity, redis_ttl s reservationKey))"

text \<open>
  \<^verbatim>\<open>cleanupExpiredReservations\<close>: KEYS with the pattern \<^verbatim>\<open>reservation:*\<close>, which the
  client sends as it is; then, for each name in the reply, TTL and DEL on that name,
  to which the client adds the prefix. A name is counted when its TTL reads 0 or
  less, which an absent key's -2 does. The only command it writes with is DEL.
\<close>

fun cleanup_loop :: "string \<Rightarrow> redis \<Rightarrow> string list \<Rightarrow> nat \<Rightarrow> nat \<times> redis" where
  "cleanup_loop p s [] cleanedCount = (cleanedCount, s)"
| "cleanup_loop p s (key # keys) cleanedCount =
     (if redis_ttl s (p @ key) \<le> 0
      then cleanup_loop p (redis_del s (p @ key)) keys (cleanedCount + 1)
      else cleanup_loop p s keys cleanedCount)"

definition cleanupExpiredReservations :: "string \<Rightarrow> redis \<Rightarrow> nat \<times> redis" where
  "cleanupExpiredReservations p s = cleanup_loop p s (redis_keys s ''reservation:'') 0"

text \<open>
  The inventory worker's job of the same name (\<^verbatim>\<open>workers/processors/inventory.js\<close>)
  calls the service and reports \<^verbatim>\<open>{success: true, cleanedCount}\<close>.
\<close>

definition job_cleanupExpiredReservations :: "string \<Rightarrow> redis \<Rightarrow> (bool \<times> nat) \<times> redis" where
  "job_cleanupExpiredReservations p s =
     (let (cleanedCount, s') = cleanupExpiredReservations p s in ((True, cleanedCount), s'))"

text \<open>Every key of the store was written through a client with prefix \<open>p\<close>.\<close>

definition owned :: "string \<Rightarrow> redis \<Rightarrow> bool" where
  "owned p s = list_all (prefix p) (map fst (kv s))"

section \<open>Sequences of operations\<close>





text \<open>
  The quantity an order holds of a SKU (0 without a reservation), and the total that
  the orders of a list hold of it.
\<close>

definition reserved_for :: "string \<Rightarrow> redis \<Rightarrow> string \<Rightarrow> string \<Rightarrow> int" where
  "reserved_for p s sku orderId =
     (case redis_get s (p @ getReservationKey orderId sku) of None \<Rightarrow> 0 | Some q \<Rightarrow> q)"

definition held :: "string \<Rightarrow> redis \<Rightarrow> string list \<Rightarrow> string \<Rightarrow> int" where
  "held p s orders sku = sum_list (map (reserved_for p s sku) orders)"






section \<open>Starting states\<close>

text \<open>
  The examples run under the default prefix \<^verbatim>\<open>aether:\<close>. A store holding nothing
  but one initialized stock counter:
\<close>

definition initial_stock :: "string \<Rightarrow> int \<Rightarrow> redis" where
  "initial_stock sku quantity = snd (initializeStock ''aether:'' empty_store sku quantity)"

text \<open>Stock 10 of SKU-1, of which order-1 holds 3 for 900 seconds.\<close>

definition order1_holds_3 :: redis where
  "order1_holds_3 =
     snd (reserveStock ''aether:'' (initial_stock ''SKU-1'' 10) ''order-1'' ''SKU-1'' 3 900)"

text \<open>Stock 5 of SKU-A and stock 0 of SKU-B.\<close>

definition stock_A5_B0 :: redis where
  "stock_A5_B0 = snd (initializeStock ''aether:'' (initial_stock ''SKU-A'' 5) ''SKU-B'' 0)"

text \<open>
  Stock 10 of SKU-1, of which order-1 reserved 4 for one second: 0.7 seconds later,
  and 2 seconds later.
\<close>

definition order1_held_4_ending :: redis where
  "order1_held_4_ending =
     tick 700 (snd (reserveStock ''aether:'' (initial_stock ''SKU-1'' 10)
                      ''order-1'' ''SKU-1'' 4 1))"

definition order1_held_4_lapsed :: redis where
  "order1_held_4_lapsed =
     tick 2000 (snd (reserveStock ''aether:'' (initial_stock ''SKU-1'' 10)
                       ''order-1'' ''SKU-1'' 4 1))"

section \<open>The store's commands, read back\<close>

lemma lookup_live: "lookup s k = Some (v, e) \<Longrightarrow> \<not> expired (now s) e"
  by (auto simp: lookup_def split: option.splits prod.splits if_splits)

lemma lookup_put_ex:
  "lookup (put_ex s k v ttl) k' =
     (if k' = k then Some (v, Some (now s + 1000 * nat ttl)) else lookup s k')"
  by (simp add: lookup_def put_ex_def update_conv' expired_def split: option.splits prod.splits)

lemma lookup_set:
  "lookup (redis_set s k v) k' = (if k' = k then Some (v, None) else lookup s k')"
  by (simp add: lookup_def redis_set_def update_conv' expired_def split: option.splits prod.splits)

lemma lookup_del:
  "lookup (redis_del s k) k' = (if k' = k then None else lookup s k')"
  by (simp add: lookup_def redis_del_def delete_conv' split: option.splits prod.splits)

lemma lookup_incrby:
  "lookup (redis_incrby s k n) k' =
     (if k' = k
      then (case lookup s k of None \<Rightarrow> Some (n, None) | Some (v, e) \<Rightarrow> Some (v + n, e))
      else lookup s k')"
proof (cases "lookup s k")
  case None
  then show ?thesis
    by (simp add: redis_incrby_def lookup_def update_conv' expired_def
        split: option.splits prod.splits)
next
  case (Some ve)
  obtain v e where ve: "ve = (v, e)" by (cases ve)
  from Some ve have live: "\<not> expired (now s) e" by (simp add: lookup_live)
  from Some ve have upd: "redis_incrby s k n = s\<lparr>kv := AList.update k (v + n, e) (kv s)\<rparr>"
    by (simp add: redis_incrby_def)
  show ?thesis
    unfolding upd using Some ve live
    by (simp add: lookup_def update_conv' split: option.splits prod.splits)
qed

lemma lookup_decrby:
  "lookup (redis_decrby s k n) k' =
     (if k' = k
      then (case lookup s k of None \<Rightarrow> Some (- n, None) | Some (v, e) \<Rightarrow> Some (v - n, e))
      else lookup s k')"
  by (simp add: redis_decrby_def lookup_incrby split: option.splits)

lemma now_put_ex: "now (put_ex s k v ttl) = now s"
  by (simp add: put_ex_def)

lemma now_set: "now (redis_set s k v) = now s"
  by (simp add: redis_set_def)

lemma now_del: "now (redis_del s k) = now s"
  by (simp add: redis_del_def)

lemma now_incrby: "now (redis_incrby s k n) = now s"
  by (simp add: redis_incrby_def split: option.splits prod.splits)

lemma now_decrby: "now (redis_decrby s k n) = now s"
  by (simp add: redis_decrby_def now_incrby)

lemmas lookup_cmds = lookup_put_ex lookup_set lookup_del lookup_incrby lookup_decrby
lemmas now_cmds = now_put_ex now_set now_del now_incrby now_decrby

lemma get_put_ex:
  "redis_get (put_ex s k v ttl) k' = (if k' = k then Some v else redis_get s k')"
  by (simp add: redis_get_def lookup_put_ex)

lemma get_set:
  "redis_get (redis_set s k v) k' = (if k' = k then Some v else redis_get s k')"
  by (simp add: redis_get_def lookup_set)

lemma get_del:
  "redis_get (redis_del s k) k' = (if k' = k then None else redis_get s k')"
  by (simp add: redis_get_def lookup_del)

lemma get_incrby:
  "redis_get (redis_incrby s k n) k' =
     (if k' = k then Some (get_or_zero s k + n) else redis_get s k')"
  by (auto simp: redis_get_def get_or_zero_def lookup_incrby split: option.splits)

lemma get_decrby:
  "redis_get (redis_decrby s k n) k' =
     (if k' = k then Some (get_or_zero s k - n) else redis_get s k')"
  by (simp add: redis_decrby_def get_incrby)

lemmas get_cmds = get_put_ex get_set get_del get_incrby get_decrby

lemma set_ex_accepted: "0 < ttl \<Longrightarrow> redis_set_ex s k v ttl = Inr (put_ex s k v ttl)"
  by (simp add: redis_set_ex_def)


lemma ttl_of_lookup:
  "lookup s' k' = lookup s k \<Longrightarrow> now s' = now s \<Longrightarrow> redis_ttl s' k' = redis_ttl s k"
  by (simp add: redis_ttl_def split: option.splits prod.splits)

lemma ttl_no_deadline: "redis_ttl s k = - 1 \<longleftrightarrow> (\<exists>v. lookup s k = Some (v, None))"
  by (auto simp: redis_ttl_def split: option.splits)

lemma getStock_get_or_zero: "getStock p s sku = get_or_zero s (p @ getStockKey sku)"
  by (simp add: getStock_def get_or_zero_def)

section \<open>Key names\<close>

lemma keyPrefix_not_empty: "keyPrefix env \<noteq> []"
  by (simp add: keyPrefix_def split: option.splits)

lemma stock_key_neq_reservation_key [simp]:
  "getStockKey sku \<noteq> getReservationKey orderId sku'"
  "getReservationKey orderId sku' \<noteq> getStockKey sku"
  by (simp_all add: getStockKey_def getReservationKey_def)

lemma getStockKey_inject [simp]: "getStockKey a = getStockKey b \<longleftrightarrow> a = b"
  by (simp add: getStockKey_def)

lemma getReservationKey_same_order [simp]:
  "getReservationKey orderId a = getReservationKey orderId b \<longleftrightarrow> a = b"
  by (simp add: getReservationKey_def)



lemma stock_key_not_reservation_prefix: "\<not> prefix ''reservation:'' (getStockKey sku)"
  by (simp add: getStockKey_def)

lemma replace_first_prefix: "pat \<noteq> [] \<Longrightarrow> replace_first pat rep (pat @ xs) = rep @ xs"
  by (cases pat) simp_all

lemma extractSkuFromStockKey_getStockKey: "extractSkuFromStockKey (getStockKey sku) = sku"
  unfolding extractSkuFromStockKey_def getStockKey_def
  by (rule replace_first_prefix [where rep = "[]", simplified]) simp

text \<open>
  Under the default prefix the stock key that comes back from the batch script is
  \<^verbatim>\<open>aether:stock:sku:{sku}\<close>, and removing \<^verbatim>\<open>stock:sku:\<close> from it leaves the prefix
  in front of the SKU.
\<close>

lemma extractSkuFromStockKey_default_prefix:
  "extractSkuFromStockKey (''aether:'' @ getStockKey sku) = ''aether:'' @ sku"
  by (simp add: extractSkuFromStockKey_def getStockKey_def)

section \<open>reserve\<close>

lemma reserve_stock_lua_insufficient:
  "get_or_zero s key1 < qty \<Longrightarrow>
   reserve_stock_lua s key1 key2 qty ttl = (Inr (0, get_or_zero s key1), s)"
  by (simp add: reserve_stock_lua_def Let_def)

lemma reserve_stock_lua_sufficient:
  "qty \<le> get_or_zero s key1 \<Longrightarrow> 0 < ttl \<Longrightarrow>
   reserve_stock_lua s key1 key2 qty ttl =
     (Inr (1, get_or_zero s key1 - qty), put_ex (redis_decrby s key1 qty) key2 qty ttl)"
  by (simp add: reserve_stock_lua_def Let_def set_ex_accepted)


lemma reserveStock_insufficient:
  "getStock p s sku < qty \<Longrightarrow>
   reserveStock p s orderId sku qty ttl = (Inr (ReserveFailure (getStock p s sku) qty), s)"
  by (simp add: reserveStock_def Let_def getStock_get_or_zero reserve_stock_lua_insufficient)

lemma reserveStock_sufficient:
  "qty \<le> getStock p s sku \<Longrightarrow> 0 < ttl \<Longrightarrow>
   reserveStock p s orderId sku qty ttl =
     (Inr (ReserveSuccess qty (getStock p s sku - qty) (getReservationKey orderId sku)),
      put_ex (redis_decrby s (p @ getStockKey sku) qty) (p @ getReservationKey orderId sku) qty ttl)"
  by (simp add: reserveStock_def Let_def getStock_get_or_zero reserve_stock_lua_sufficient)


lemma getStock_after_reserve_write:
  "getStock p (put_ex (redis_decrby s (p @ getStockKey sku) qty)
                 (p @ getReservationKey orderId sku') q ttl) sku
     = getStock p s sku - qty"
  by (simp add: getStock_def get_cmds get_or_zero_def)

lemma ttl_fresh_reservation:
  "0 < ttl \<Longrightarrow> redis_ttl (put_ex s k v ttl) k = ttl"
  by (simp add: redis_ttl_def lookup_put_ex now_put_ex)

lemmas run_defs =
  initial_stock_def initializeStock_def empty_store_def tick_def
  getStockKey_def getReservationKey_def getStock_def get_or_zero_def
  redis_get_def redis_exists_def lookup_def expired_def redis_ttl_def
  redis_set_def redis_set_ex_def put_ex_def redis_del_def redis_incrby_def redis_decrby_def
  reserve_stock_lua_def release_reservation_lua_def commit_reservation_lua_def
  reserveStock_def releaseReservation_def commitReservation_def
  hasReservation_def getReservation_def Let_def

lemma initial_stock_eval:
  "initial_stock sku n = \<lparr>now = 0, kv = [(''aether:stock:sku:'' @ sku, (n, None))]\<rparr>"
  by (simp add: run_defs)

lemma order1_holds_3_eval:
  "order1_holds_3 =
     \<lparr>now = 0, kv = [(''aether:stock:sku:SKU-1'', (7, None)),
                      (''aether:reservation:order-1:SKU-1'', (3, Some 900000))]\<rparr>"
  by (simp add: order1_holds_3_def run_defs)

text \<open>
  C3, as the specification states it: every reserve with \<open>qty > 0\<close> and enough stock
  decrements the ledger, records the reservation and answers success. It does not
  hold for a TTL of 0. Stock 10, reserve 3 with TTL 0: the script has decremented the
  ledger to 7 when Redis refuses \<^verbatim>\<open>SET ... EX 0\<close>; the call throws, and no reservation
  is recorded.
\<close>

theorem reserve_with_zero_ttl_counterexample:
  "(0::int) < 3 \<and>
   \<not> getStock ''aether:'' (initial_stock ''SKU-1'' 10) ''SKU-1'' < 3 \<and>
   fst (reserveStock ''aether:'' (initial_stock ''SKU-1'' 10) ''order-1'' ''SKU-1'' 3 0) =
     Inl InvalidExpireTime \<and>
   getStock ''aether:''
     (snd (reserveStock ''aether:'' (initial_stock ''SKU-1'' 10) ''order-1'' ''SKU-1'' 3 0))
     ''SKU-1'' = 7 \<and>
   \<not> hasReservation ''aether:''
     (snd (reserveStock ''aether:'' (initial_stock ''SKU-1'' 10) ''order-1'' ''SKU-1'' 3 0))
     ''order-1'' ''SKU-1''"
  unfolding initial_stock_eval
  by (simp add: run_defs)

text \<open>
  C3, amended: the TTL must be positive for the call to go through.
  \<^verbatim>\<open>reserveStock(orderId, sku, qty, ttl)\<close> with \<open>qty > 0\<close>: when the ledger holds less
  than \<open>qty\<close>, the call fails, reports the stock as available and \<open>qty\<close> as requested,
  and returns the store as it was, whatever the TTL. Otherwise, when \<open>ttl > 0\<close>, it
  succeeds with the remaining stock \<open>stock - qty\<close>, the ledger reads \<open>stock - qty\<close>
  afterwards, the reservation key holds \<open>qty\<close> with a deadline \<open>ttl\<close> seconds from now
  (so that \<^verbatim>\<open>getReservation\<close> reads the quantity and the TTL back), and no other key
  changes.
\<close>

theorem reserveStock_checks_then_reserves:
  assumes "0 < qty"
  shows
    "(getStock p s sku < qty \<longrightarrow>
        reserveStock p s orderId sku qty ttl = (Inr (ReserveFailure (getStock p s sku) qty), s)) \<and>
     (\<not> getStock p s sku < qty \<and> 0 < ttl \<longrightarrow>
        fst (reserveStock p s orderId sku qty ttl) =
          Inr (ReserveSuccess qty (getStock p s sku - qty) (getReservationKey orderId sku)) \<and>
        getStock p (snd (reserveStock p s orderId sku qty ttl)) sku = getStock p s sku - qty \<and>
        lookup (snd (reserveStock p s orderId sku qty ttl)) (p @ getReservationKey orderId sku) =
          Some (qty, Some (now s + 1000 * nat ttl)) \<and>
        getReservation p (snd (reserveStock p s orderId sku qty ttl)) orderId sku =
          Some (qty, ttl) \<and>
        (\<forall>k. k \<noteq> p @ getStockKey sku \<and> k \<noteq> p @ getReservationKey orderId sku \<longrightarrow>
           lookup (snd (reserveStock p s orderId sku qty ttl)) k = lookup s k))"
proof (intro conjI impI)
  assume "getStock p s sku < qty"
  then show "reserveStock p s orderId sku qty ttl =
      (Inr (ReserveFailure (getStock p s sku) qty), s)"
    by (rule reserveStock_insufficient)
next
  assume a: "\<not> getStock p s sku < qty \<and> 0 < ttl"
  then have pos: "0 < ttl" by simp
  from a have r: "reserveStock p s orderId sku qty ttl =
     (Inr (ReserveSuccess qty (getStock p s sku - qty) (getReservationKey orderId sku)),
      put_ex (redis_decrby s (p @ getStockKey sku) qty) (p @ getReservationKey orderId sku) qty ttl)"
    by (simp add: reserveStock_sufficient)
  show "fst (reserveStock p s orderId sku qty ttl) =
          Inr (ReserveSuccess qty (getStock p s sku - qty) (getReservationKey orderId sku))"
    by (simp add: r)
  show "getStock p (snd (reserveStock p s orderId sku qty ttl)) sku = getStock p s sku - qty"
    by (simp add: r getStock_after_reserve_write)
  show "lookup (snd (reserveStock p s orderId sku qty ttl)) (p @ getReservationKey orderId sku) =
          Some (qty, Some (now s + 1000 * nat ttl))"
    by (simp add: r lookup_put_ex now_decrby)
  show "getReservation p (snd (reserveStock p s orderId sku qty ttl)) orderId sku =
          Some (qty, ttl)"
    using pos by (simp add: r getReservation_def get_put_ex ttl_fresh_reservation)
  show "\<forall>k. k \<noteq> p @ getStockKey sku \<and> k \<noteq> p @ getReservationKey orderId sku \<longrightarrow>
           lookup (snd (reserveStock p s orderId sku qty ttl)) k = lookup s k"
    by (simp add: r lookup_put_ex lookup_decrby)
qed

text \<open>
  The two scenarios of the specification: stock 10, reserve 3 for 900 seconds, 7
  remain; stock 2, reserve 5, the call fails with 2 available and the ledger stays at 2.
\<close>

theorem reserveStock_checks_then_reserves_witness:
  "(0::int) < 3 \<and> (0::int) < 900 \<and>
   \<not> getStock ''aether:'' (initial_stock ''SKU-1'' 10) ''SKU-1'' < 3 \<and>
   fst (reserveStock ''aether:'' (initial_stock ''SKU-1'' 10) ''order-1'' ''SKU-1'' 3 900) =
     Inr (ReserveSuccess 3 7 ''reservation:order-1:SKU-1'') \<and>
   getStock ''aether:''
     (snd (reserveStock ''aether:'' (initial_stock ''SKU-1'' 10) ''order-1'' ''SKU-1'' 3 900))
     ''SKU-1'' = 7 \<and>
   getReservation ''aether:''
     (snd (reserveStock ''aether:'' (initial_stock ''SKU-1'' 10) ''order-1'' ''SKU-1'' 3 900))
     ''order-1'' ''SKU-1'' = Some (3, 900) \<and>
   (0::int) < 5 \<and>
   getStock ''aether:'' (initial_stock ''SKU-2'' 2) ''SKU-2'' < 5 \<and>
   reserveStock ''aether:'' (initial_stock ''SKU-2'' 2) ''order-2'' ''SKU-2'' 5 900 =
     (Inr (ReserveFailure 2 5), initial_stock ''SKU-2'' 2) \<and>
   getStock ''aether:''
     (snd (reserveStock ''aether:'' (initial_stock ''SKU-2'' 2) ''order-2'' ''SKU-2'' 5 900))
     ''SKU-2'' = 2"
  using reserveStock_checks_then_reserves
          [where qty = 3 and p = "''aether:''" and s = "initial_stock ''SKU-1'' 10"
             and sku = "''SKU-1''" and orderId = "''order-1''" and ttl = 900]
        reserveStock_checks_then_reserves
          [where qty = 5 and p = "''aether:''" and s = "initial_stock ''SKU-2'' 2"
             and sku = "''SKU-2''" and orderId = "''order-2''" and ttl = 900]
  unfolding initial_stock_eval
  by (simp add: run_defs)

section \<open>release\<close>

lemma releaseReservation_missing:
  "redis_get s (p @ getReservationKey orderId sku) = None \<Longrightarrow>
   releaseReservation p s orderId sku = (ReleaseFailure (getStock p s sku), s)"
  by (simp add: releaseReservation_def release_reservation_lua_def getStock_get_or_zero)

lemma releaseReservation_present:
  "redis_get s (p @ getReservationKey orderId sku) = Some q \<Longrightarrow>
   releaseReservation p s orderId sku =
     (ReleaseSuccess q (getStock p s sku + q),
      redis_del (redis_incrby s (p @ getStockKey sku) q) (p @ getReservationKey orderId sku))"
  by (simp add: releaseReservation_def release_reservation_lua_def Let_def
      getStock_get_or_zero get_or_zero_def get_cmds)

lemma getStock_after_release_write:
  "getStock p (redis_del (redis_incrby s (p @ getStockKey sku) q)
                 (p @ getReservationKey orderId sku')) sku
     = getStock p s sku + q"
  by (simp add: getStock_def get_cmds get_or_zero_def)

text \<open>
  C6. With no reservation under the key, \<^verbatim>\<open>releaseReservation\<close> answers
  \<open>released = false\<close> with the current stock and returns the store as it was. With a
  reservation of quantity \<open>q\<close>, the first call answers \<open>released = true\<close>, deletes the
  reservation key and leaves the ledger at \<open>stock + q\<close>, touching no other key; the
  call repeated right after it answers \<open>released = false\<close> with that same stock
  \<open>stock + q\<close> and changes nothing, so the ledger is incremented once.
\<close>

theorem releaseReservation_idempotent:
  "(redis_get s (p @ getReservationKey orderId sku) = None \<longrightarrow>
      releaseReservation p s orderId sku = (ReleaseFailure (getStock p s sku), s)) \<and>
   (redis_get s (p @ getReservationKey orderId sku) = Some q \<longrightarrow>
      fst (releaseReservation p s orderId sku) = ReleaseSuccess q (getStock p s sku + q) \<and>
      getStock p (snd (releaseReservation p s orderId sku)) sku = getStock p s sku + q \<and>
      redis_get (snd (releaseReservation p s orderId sku)) (p @ getReservationKey orderId sku)
        = None \<and>
      (\<forall>k. k \<noteq> p @ getStockKey sku \<and> k \<noteq> p @ getReservationKey orderId sku \<longrightarrow>
         lookup (snd (releaseReservation p s orderId sku)) k = lookup s k) \<and>
      releaseReservation p (snd (releaseReservation p s orderId sku)) orderId sku =
        (ReleaseFailure (getStock p s sku + q), snd (releaseReservation p s orderId sku)))"
proof (intro conjI impI)
  assume "redis_get s (p @ getReservationKey orderId sku) = None"
  then show "releaseReservation p s orderId sku = (ReleaseFailure (getStock p s sku), s)"
    by (rule releaseReservation_missing)
next
  let ?s1 = "redis_del (redis_incrby s (p @ getStockKey sku) q)
               (p @ getReservationKey orderId sku)"
  assume "redis_get s (p @ getReservationKey orderId sku) = Some q"
  then have r: "releaseReservation p s orderId sku =
      (ReleaseSuccess q (getStock p s sku + q), ?s1)"
    by (rule releaseReservation_present)
  have gone: "redis_get ?s1 (p @ getReservationKey orderId sku) = None"
    by (simp add: get_del)
  have stock: "getStock p ?s1 sku = getStock p s sku + q"
    by (rule getStock_after_release_write)
  show "fst (releaseReservation p s orderId sku) = ReleaseSuccess q (getStock p s sku + q)"
    by (simp add: r)
  show "getStock p (snd (releaseReservation p s orderId sku)) sku = getStock p s sku + q"
    by (simp add: r stock)
  show "redis_get (snd (releaseReservation p s orderId sku)) (p @ getReservationKey orderId sku)
          = None"
    by (simp add: r gone)
  show "\<forall>k. k \<noteq> p @ getStockKey sku \<and> k \<noteq> p @ getReservationKey orderId sku \<longrightarrow>
         lookup (snd (releaseReservation p s orderId sku)) k = lookup s k"
    by (simp add: r lookup_del lookup_incrby)
  show "releaseReservation p (snd (releaseReservation p s orderId sku)) orderId sku =
        (ReleaseFailure (getStock p s sku + q), snd (releaseReservation p s orderId sku))"
    using releaseReservation_missing [OF gone] by (simp add: r stock)
qed

lemma release_order1_eval:
  "releaseReservation ''aether:'' order1_holds_3 ''order-1'' ''SKU-1'' =
     (ReleaseSuccess 3 10, \<lparr>now = 0, kv = [(''aether:stock:sku:SKU-1'', (10, None))]\<rparr>)"
  unfolding order1_holds_3_eval by (simp add: run_defs)

text \<open>
  Stock 10, 3 reserved: the first release answers (true, 3, 10), the second
  (false, 10), and the ledger reads 10 after both.
\<close>

theorem releaseReservation_idempotent_witness:
  "redis_get order1_holds_3 (''aether:'' @ getReservationKey ''order-1'' ''SKU-1'') = Some 3 \<and>
   fst (releaseReservation ''aether:'' order1_holds_3 ''order-1'' ''SKU-1'') =
     ReleaseSuccess 3 10 \<and>
   fst (releaseReservation ''aether:''
          (snd (releaseReservation ''aether:'' order1_holds_3 ''order-1'' ''SKU-1''))
          ''order-1'' ''SKU-1'') = ReleaseFailure 10 \<and>
   getStock ''aether:''
     (snd (releaseReservation ''aether:''
          (snd (releaseReservation ''aether:'' order1_holds_3 ''order-1'' ''SKU-1''))
          ''order-1'' ''SKU-1'')) ''SKU-1'' = 10 \<and>
   redis_get (initial_stock ''SKU-1'' 10) (''aether:'' @ getReservationKey ''order-1'' ''SKU-1'')
     = None \<and>
   releaseReservation ''aether:'' (initial_stock ''SKU-1'' 10) ''order-1'' ''SKU-1'' =
     (ReleaseFailure 10, initial_stock ''SKU-1'' 10)"
  using releaseReservation_idempotent
          [where p = "''aether:''" and s = order1_holds_3 and orderId = "''order-1''"
             and sku = "''SKU-1''" and q = 3]
        releaseReservation_idempotent
          [where p = "''aether:''" and s = "initial_stock ''SKU-1'' 10" and orderId = "''order-1''"
             and sku = "''SKU-1''" and q = 3]
  unfolding release_order1_eval
  unfolding initial_stock_eval order1_holds_3_eval
  by (simp add: run_defs)

section \<open>commit\<close>

lemma commitReservation_missing:
  "redis_get s (p @ getReservationKey orderId sku) = None \<Longrightarrow>
   commitReservation p s orderId sku = (CommitFailure (getStock p s sku), s)"
  by (simp add: commitReservation_def commit_reservation_lua_def getStock_get_or_zero)

lemma commitReservation_present:
  "redis_get s (p @ getReservationKey orderId sku) = Some q \<Longrightarrow>
   commitReservation p s orderId sku =
     (CommitSuccess q (getStock p s sku), redis_del s (p @ getReservationKey orderId sku))"
  by (simp add: commitReservation_def commit_reservation_lua_def Let_def
      getStock_get_or_zero get_or_zero_def get_cmds)

lemma getStock_after_commit_write:
  "getStock p (redis_del s (p @ getReservationKey orderId sku')) sku = getStock p s sku"
  by (simp add: getStock_def get_cmds)

lemma commitReservation_state:
  "snd (commitReservation p s orderId sku) = s \<or>
   snd (commitReservation p s orderId sku) = redis_del s (p @ getReservationKey orderId sku)"
  by (cases "redis_get s (p @ getReservationKey orderId sku)")
     (simp_all add: commitReservation_missing commitReservation_present)

text \<open>
  C7. \<^verbatim>\<open>commitReservation\<close> leaves the stock of every SKU as it was. With a
  reservation of quantity \<open>q\<close> it answers (committed = true, \<open>q\<close>, current stock),
  deletes the reservation key and changes no other key; without one it answers
  (committed = false, current stock) and returns the store as it was. The commit
  repeated after a successful one answers committed = false with the same stock.
\<close>

theorem commitReservation_keeps_ledger:
  "(\<forall>sku'. getStock p (snd (commitReservation p s orderId sku)) sku' = getStock p s sku') \<and>
   (redis_get s (p @ getReservationKey orderId sku) = None \<longrightarrow>
      commitReservation p s orderId sku = (CommitFailure (getStock p s sku), s)) \<and>
   (redis_get s (p @ getReservationKey orderId sku) = Some q \<longrightarrow>
      fst (commitReservation p s orderId sku) = CommitSuccess q (getStock p s sku) \<and>
      redis_get (snd (commitReservation p s orderId sku)) (p @ getReservationKey orderId sku)
        = None \<and>
      (\<forall>k. k \<noteq> p @ getReservationKey orderId sku \<longrightarrow>
         lookup (snd (commitReservation p s orderId sku)) k = lookup s k) \<and>
      commitReservation p (snd (commitReservation p s orderId sku)) orderId sku =
        (CommitFailure (getStock p s sku), snd (commitReservation p s orderId sku)))"
proof (intro conjI impI allI)
  fix sku'
  show "getStock p (snd (commitReservation p s orderId sku)) sku' = getStock p s sku'"
    using commitReservation_state [of p s orderId sku]
    by (auto simp: getStock_after_commit_write)
next
  assume "redis_get s (p @ getReservationKey orderId sku) = None"
  then show "commitReservation p s orderId sku = (CommitFailure (getStock p s sku), s)"
    by (rule commitReservation_missing)
next
  let ?s1 = "redis_del s (p @ getReservationKey orderId sku)"
  assume "redis_get s (p @ getReservationKey orderId sku) = Some q"
  then have r: "commitReservation p s orderId sku = (CommitSuccess q (getStock p s sku), ?s1)"
    by (rule commitReservation_present)
  have gone: "redis_get ?s1 (p @ getReservationKey orderId sku) = None"
    by (simp add: get_del)
  show "fst (commitReservation p s orderId sku) = CommitSuccess q (getStock p s sku)"
    by (simp add: r)
  show "redis_get (snd (commitReservation p s orderId sku)) (p @ getReservationKey orderId sku)
          = None"
    by (simp add: r gone)
  show "\<And>k. k \<noteq> p @ getReservationKey orderId sku \<Longrightarrow>
         lookup (snd (commitReservation p s orderId sku)) k = lookup s k"
    by (simp add: r lookup_del)
  show "commitReservation p (snd (commitReservation p s orderId sku)) orderId sku =
        (CommitFailure (getStock p s sku), snd (commitReservation p s orderId sku))"
    using commitReservation_missing [OF gone] by (simp add: r getStock_after_commit_write)
qed

lemma commit_order1_eval:
  "commitReservation ''aether:'' order1_holds_3 ''order-1'' ''SKU-1'' =
     (CommitSuccess 3 7, \<lparr>now = 0, kv = [(''aether:stock:sku:SKU-1'', (7, None))]\<rparr>)"
  unfolding order1_holds_3_eval by (simp add: run_defs)

text \<open>
  The scenario of the specification: stock 10, 3 reserved for order-1; the commit
  answers (true, 3, 7), the second commit (false, 7), and the ledger reads 7 throughout.
\<close>

theorem commitReservation_keeps_ledger_witness:
  "redis_get order1_holds_3 (''aether:'' @ getReservationKey ''order-1'' ''SKU-1'') = Some 3 \<and>
   getStock ''aether:'' order1_holds_3 ''SKU-1'' = 7 \<and>
   fst (commitReservation ''aether:'' order1_holds_3 ''order-1'' ''SKU-1'') = CommitSuccess 3 7 \<and>
   fst (commitReservation ''aether:''
          (snd (commitReservation ''aether:'' order1_holds_3 ''order-1'' ''SKU-1''))
          ''order-1'' ''SKU-1'') = CommitFailure 7 \<and>
   getStock ''aether:''
     (snd (commitReservation ''aether:''
          (snd (commitReservation ''aether:'' order1_holds_3 ''order-1'' ''SKU-1''))
          ''order-1'' ''SKU-1'')) ''SKU-1'' = 7 \<and>
   redis_get (initial_stock ''SKU-1'' 10) (''aether:'' @ getReservationKey ''order-1'' ''SKU-1'')
     = None \<and>
   commitReservation ''aether:'' (initial_stock ''SKU-1'' 10) ''order-1'' ''SKU-1'' =
     (CommitFailure 10, initial_stock ''SKU-1'' 10)"
  using commitReservation_keeps_ledger
          [where p = "''aether:''" and s = order1_holds_3 and orderId = "''order-1''"
             and sku = "''SKU-1''" and q = 3]
        commitReservation_keeps_ledger
          [where p = "''aether:''" and s = "initial_stock ''SKU-1'' 10" and orderId = "''order-1''"
             and sku = "''SKU-1''" and q = 3]
  unfolding commit_order1_eval
  unfolding initial_stock_eval order1_holds_3_eval
  by (simp add: run_defs)

section \<open>reserve outside its precondition\<close>

lemma exists_put_ex:
  "redis_exists (put_ex (redis_decrby s k1 n) k2 v ttl) k =
     (if k = k2 \<or> k = k1 then True else redis_exists s k)"
  by (simp add: redis_exists_def lookup_put_ex lookup_decrby split: option.splits)

text \<open>
  C9, as stated: for every \<open>qty \<le> 0\<close> within the stock the call answers success and
  records the reservation. It does not hold for a TTL of 0: stock 5, reserve -2 with
  TTL 0 raises the ledger to 7, then \<^verbatim>\<open>SET ... EX 0\<close> is refused, the call throws and
  nothing is recorded.
\<close>

theorem nonpositive_quantity_zero_ttl_counterexample:
  "(- 2 :: int) \<le> 0 \<and>
   - 2 \<le> getStock ''aether:'' (initial_stock ''SKU-1'' 5) ''SKU-1'' \<and>
   fst (reserveStock ''aether:'' (initial_stock ''SKU-1'' 5) ''order-1'' ''SKU-1'' (- 2) 0) =
     Inl InvalidExpireTime \<and>
   getStock ''aether:''
     (snd (reserveStock ''aether:'' (initial_stock ''SKU-1'' 5) ''order-1'' ''SKU-1'' (- 2) 0))
     ''SKU-1'' = 7 \<and>
   redis_get
     (snd (reserveStock ''aether:'' (initial_stock ''SKU-1'' 5) ''order-1'' ''SKU-1'' (- 2) 0))
     (''aether:'' @ getReservationKey ''order-1'' ''SKU-1'') = None"
  unfolding initial_stock_eval
  by (simp add: run_defs)

text \<open>
  C9, amended: with a positive TTL. Neither the script nor the service checks that
  the quantity is positive. For \<open>qty \<le> 0\<close> and \<open>ttl > 0\<close> the stock test
  \<open>stock \<ge> qty\<close> passes whenever the stock is not below \<open>qty\<close>, which a non-negative
  stock never is; the call then answers success, the ledger reads \<open>stock - qty\<close> (not
  less than before, more for a negative \<open>qty\<close>), and the reservation key holds the
  non-positive quantity.
\<close>

theorem reserveStock_accepts_nonpositive_quantity:
  assumes "qty \<le> 0" and "0 < ttl"
  shows
    "(0 \<le> getStock p s sku \<longrightarrow> qty \<le> getStock p s sku) \<and>
     (qty \<le> getStock p s sku \<longrightarrow>
        fst (reserveStock p s orderId sku qty ttl) =
          Inr (ReserveSuccess qty (getStock p s sku - qty) (getReservationKey orderId sku)) \<and>
        getStock p (snd (reserveStock p s orderId sku qty ttl)) sku = getStock p s sku - qty \<and>
        getStock p s sku \<le> getStock p (snd (reserveStock p s orderId sku qty ttl)) sku \<and>
        (qty < 0 \<longrightarrow>
           getStock p s sku < getStock p (snd (reserveStock p s orderId sku qty ttl)) sku) \<and>
        redis_get (snd (reserveStock p s orderId sku qty ttl))
          (p @ getReservationKey orderId sku) = Some qty)"
proof (intro conjI impI)
  assume "0 \<le> getStock p s sku"
  with assms show "qty \<le> getStock p s sku" by simp
next
  assume "qty \<le> getStock p s sku"
  then have r: "reserveStock p s orderId sku qty ttl =
     (Inr (ReserveSuccess qty (getStock p s sku - qty) (getReservationKey orderId sku)),
      put_ex (redis_decrby s (p @ getStockKey sku) qty) (p @ getReservationKey orderId sku) qty ttl)"
    using assms(2) by (rule reserveStock_sufficient)
  show "fst (reserveStock p s orderId sku qty ttl) =
          Inr (ReserveSuccess qty (getStock p s sku - qty) (getReservationKey orderId sku))"
    by (simp add: r)
  show stock: "getStock p (snd (reserveStock p s orderId sku qty ttl)) sku = getStock p s sku - qty"
    by (simp add: r getStock_after_reserve_write)
  show "getStock p s sku \<le> getStock p (snd (reserveStock p s orderId sku qty ttl)) sku"
    using assms(1) by (simp add: stock)
  show "redis_get (snd (reserveStock p s orderId sku qty ttl))
          (p @ getReservationKey orderId sku) = Some qty"
    by (simp add: r get_put_ex)
  assume "qty < 0"
  then show "getStock p s sku < getStock p (snd (reserveStock p s orderId sku qty ttl)) sku"
    by (simp add: stock)
qed

text \<open>
  Stock 5 and a request for -2: success, the ledger goes up to 7 and the reservation
  holds -2. Stock 5 and a request for 0: success, the ledger stays at 5.
\<close>

theorem reserveStock_accepts_nonpositive_quantity_witness:
  "(- 2 :: int) \<le> 0 \<and> (- 2 :: int) < 0 \<and> (0 :: int) < 900 \<and>
   - 2 \<le> getStock ''aether:'' (initial_stock ''SKU-1'' 5) ''SKU-1'' \<and>
   fst (reserveStock ''aether:'' (initial_stock ''SKU-1'' 5) ''order-1'' ''SKU-1'' (- 2) 900) =
     Inr (ReserveSuccess (- 2) 7 ''reservation:order-1:SKU-1'') \<and>
   getStock ''aether:''
     (snd (reserveStock ''aether:'' (initial_stock ''SKU-1'' 5) ''order-1'' ''SKU-1'' (- 2) 900))
     ''SKU-1'' = 7 \<and>
   redis_get
     (snd (reserveStock ''aether:'' (initial_stock ''SKU-1'' 5) ''order-1'' ''SKU-1'' (- 2) 900))
     (''aether:'' @ getReservationKey ''order-1'' ''SKU-1'') = Some (- 2) \<and>
   fst (reserveStock ''aether:'' (initial_stock ''SKU-1'' 5) ''order-1'' ''SKU-1'' 0 900) =
     Inr (ReserveSuccess 0 5 ''reservation:order-1:SKU-1'')"
  using reserveStock_accepts_nonpositive_quantity
          [where qty = "- 2" and ttl = 900 and p = "''aether:''"
             and s = "initial_stock ''SKU-1'' 5" and sku = "''SKU-1''" and orderId = "''order-1''"]
        reserveStock_accepts_nonpositive_quantity
          [where qty = 0 and ttl = 900 and p = "''aether:''"
             and s = "initial_stock ''SKU-1'' 5" and sku = "''SKU-1''" and orderId = "''order-1''"]
  unfolding initial_stock_eval
  by (simp add: run_defs)

section \<open>reserve on a pair that already holds a reservation\<close>

text \<open>
  C4, as the specification states it: a second reserve for a pair with an active
  reservation fails, overwrites nothing and leaves the ledger alone. It does not hold.
  Stock 10, order-1 holds 3 of SKU-1 (ledger 7); a second reserve of 2 for the same
  pair answers success, the ledger drops to 5 and the reservation key now holds 2.
\<close>

theorem second_reserve_counterexample:
  "hasReservation ''aether:'' order1_holds_3 ''order-1'' ''SKU-1'' \<and>
   getStock ''aether:'' order1_holds_3 ''SKU-1'' = 7 \<and>
   fst (reserveStock ''aether:'' order1_holds_3 ''order-1'' ''SKU-1'' 2 900) =
     Inr (ReserveSuccess 2 5 ''reservation:order-1:SKU-1'') \<and>
   getStock ''aether:'' (snd (reserveStock ''aether:'' order1_holds_3 ''order-1'' ''SKU-1'' 2 900))
     ''SKU-1'' = 5 \<and>
   redis_get (snd (reserveStock ''aether:'' order1_holds_3 ''order-1'' ''SKU-1'' 2 900))
     (''aether:'' @ getReservationKey ''order-1'' ''SKU-1'') = Some 2"
  unfolding order1_holds_3_eval
  by (simp add: run_defs)

text \<open>
  C4, amended. The scripts never test whether the reservation key exists. A reserve
  for a pair that holds a reservation is decided by the stock alone: below the
  requested quantity it fails and the store, the held reservation included, stays as
  it was; otherwise, with a positive TTL, it succeeds, the ledger is decremented again
  by the new quantity, and the same key is overwritten with the new quantity and a
  fresh deadline. No key but the stock key and that reservation key changes, so no
  further reservation key appears.
\<close>

theorem second_reserve_overwrites:
  assumes "redis_get s (p @ getReservationKey orderId sku) = Some q0"
  shows
    "(getStock p s sku < qty \<longrightarrow>
        reserveStock p s orderId sku qty ttl = (Inr (ReserveFailure (getStock p s sku) qty), s)) \<and>
     (qty \<le> getStock p s sku \<and> 0 < ttl \<longrightarrow>
        fst (reserveStock p s orderId sku qty ttl) =
          Inr (ReserveSuccess qty (getStock p s sku - qty) (getReservationKey orderId sku)) \<and>
        getStock p (snd (reserveStock p s orderId sku qty ttl)) sku = getStock p s sku - qty \<and>
        lookup (snd (reserveStock p s orderId sku qty ttl)) (p @ getReservationKey orderId sku) =
          Some (qty, Some (now s + 1000 * nat ttl)) \<and>
        (\<forall>k. k \<noteq> p @ getStockKey sku \<longrightarrow>
           redis_exists (snd (reserveStock p s orderId sku qty ttl)) k = redis_exists s k) \<and>
        (\<forall>k. k \<noteq> p @ getStockKey sku \<and> k \<noteq> p @ getReservationKey orderId sku \<longrightarrow>
           lookup (snd (reserveStock p s orderId sku qty ttl)) k = lookup s k))"
proof (intro conjI impI)
  assume "getStock p s sku < qty"
  then show "reserveStock p s orderId sku qty ttl =
      (Inr (ReserveFailure (getStock p s sku) qty), s)"
    by (rule reserveStock_insufficient)
next
  assume a: "qty \<le> getStock p s sku \<and> 0 < ttl"
  then have r: "reserveStock p s orderId sku qty ttl =
     (Inr (ReserveSuccess qty (getStock p s sku - qty) (getReservationKey orderId sku)),
      put_ex (redis_decrby s (p @ getStockKey sku) qty) (p @ getReservationKey orderId sku) qty ttl)"
    by (simp add: reserveStock_sufficient)
  from assms have held: "redis_exists s (p @ getReservationKey orderId sku)"
    by (auto simp: redis_exists_def redis_get_def)
  show "fst (reserveStock p s orderId sku qty ttl) =
          Inr (ReserveSuccess qty (getStock p s sku - qty) (getReservationKey orderId sku))"
    by (simp add: r)
  show "getStock p (snd (reserveStock p s orderId sku qty ttl)) sku = getStock p s sku - qty"
    by (simp add: r getStock_after_reserve_write)
  show "lookup (snd (reserveStock p s orderId sku qty ttl)) (p @ getReservationKey orderId sku) =
          Some (qty, Some (now s + 1000 * nat ttl))"
    by (simp add: r lookup_put_ex now_decrby)
  show "\<forall>k. k \<noteq> p @ getStockKey sku \<longrightarrow>
           redis_exists (snd (reserveStock p s orderId sku qty ttl)) k = redis_exists s k"
    using held by (simp add: r exists_put_ex)
  show "\<forall>k. k \<noteq> p @ getStockKey sku \<and> k \<noteq> p @ getReservationKey orderId sku \<longrightarrow>
           lookup (snd (reserveStock p s orderId sku qty ttl)) k = lookup s k"
    by (simp add: r lookup_put_ex lookup_decrby)
qed

text \<open>
  Stock 10 of which order-1 holds 3 (ledger 7). A second reserve of 2 for the same
  pair, for 60 seconds, succeeds: the ledger reads 5 and the key holds 2 with the
  new deadline. A second reserve of 8 fails on the stock and changes nothing.
\<close>

theorem second_reserve_overwrites_witness:
  "redis_get order1_holds_3 (''aether:'' @ getReservationKey ''order-1'' ''SKU-1'') = Some 3 \<and>
   2 \<le> getStock ''aether:'' order1_holds_3 ''SKU-1'' \<and> (0::int) < 60 \<and>
   getStock ''aether:'' (snd (reserveStock ''aether:'' order1_holds_3 ''order-1'' ''SKU-1'' 2 60))
     ''SKU-1'' = 5 \<and>
   lookup (snd (reserveStock ''aether:'' order1_holds_3 ''order-1'' ''SKU-1'' 2 60))
     (''aether:'' @ getReservationKey ''order-1'' ''SKU-1'') = Some (2, Some 60000) \<and>
   getStock ''aether:'' order1_holds_3 ''SKU-1'' < 8 \<and>
   reserveStock ''aether:'' order1_holds_3 ''order-1'' ''SKU-1'' 8 60 =
     (Inr (ReserveFailure 7 8), order1_holds_3)"
  using second_reserve_overwrites
          [where s = order1_holds_3 and p = "''aether:''" and orderId = "''order-1''"
             and sku = "''SKU-1''" and ?q0.0 = 3 and qty = 2 and ttl = 60]
        second_reserve_overwrites
          [where s = order1_holds_3 and p = "''aether:''" and orderId = "''order-1''"
             and sku = "''SKU-1''" and ?q0.0 = 3 and qty = 8 and ttl = 60]
  unfolding order1_holds_3_eval
  by (simp add: run_defs)

section \<open>batchReserve\<close>

lemma batch_check_flag:
  "fst (batch_check s items) = list_all (\<lambda>(sk, rk, q, ttl). \<not> get_or_zero s sk < q) items"
  by (induction s items rule: batch_check.induct) (simp_all add: Let_def case_prod_beta)

lemma batch_check_results:
  "fst (snd (batch_check s items)) =
     map (\<lambda>(sk, rk, q, ttl). (sk, if get_or_zero s sk < q then 0 else 1, get_or_zero s sk, q)) items"
  by (induction s items rule: batch_check.induct) (simp_all add: Let_def case_prod_beta)

lemma batch_check_reservations:
  "snd (snd (batch_check s items)) = filter (\<lambda>(sk, rk, q, ttl). \<not> get_or_zero s sk < q) items"
  by (induction s items rule: batch_check.induct) (simp_all add: Let_def case_prod_beta)

lemma batch_check_eq:
  "batch_check s items =
     (list_all (\<lambda>(sk, rk, q, ttl). \<not> get_or_zero s sk < q) items,
      map (\<lambda>(sk, rk, q, ttl). (sk, if get_or_zero s sk < q then 0 else 1, get_or_zero s sk, q)) items,
      filter (\<lambda>(sk, rk, q, ttl). \<not> get_or_zero s sk < q) items)"
  by (simp add: prod_eq_iff batch_check_flag batch_check_results batch_check_reservations)

lemma all_pass_args:
  "list_all (\<lambda>(sk, rk, q, ttl). \<not> get_or_zero s sk < q) (batch_args p orderId ttl items) =
   list_all (\<lambda>(sku, q). q \<le> getStock p s sku) items"
  by (induction items) (simp_all add: batch_args_def getStock_get_or_zero case_prod_beta not_less)

text \<open>The entry the service makes of an item, from the stock as it is before the call.\<close>

lemma report_args:
  "map (\<lambda>(stockKey, success, available, requested).
          \<lparr>sku_of = extractSkuFromStockKey stockKey, success_of = (success = 1),
           availableStock_of = available, requestedQuantity_of = requested\<rparr>)
     (map (\<lambda>(sk, rk, q, ttl). (sk, if get_or_zero s sk < q then 0 else (1::int), get_or_zero s sk, q))
        (batch_args p orderId ttl items)) =
   map (\<lambda>(sku, q). \<lparr>sku_of = extractSkuFromStockKey (p @ getStockKey sku),
           success_of = (q \<le> getStock p s sku),
           availableStock_of = getStock p s sku, requestedQuantity_of = q\<rparr>) items"
  by (induction items)
     (simp_all add: batch_args_def getStock_get_or_zero case_prod_beta not_less)

lemma filter_all_pass: "list_all P xs \<Longrightarrow> filter P xs = xs"
  by (induction xs) simp_all

lemma batch_apply_accepted:
  "0 < ttl \<Longrightarrow>
   batch_apply s (batch_args p orderId ttl items) =
     (None, batch_writes s (batch_args p orderId ttl items))"
  by (induction items arbitrary: s)
     (simp_all add: batch_args_def case_prod_beta Let_def set_ex_accepted)

text \<open>The whole of \<^verbatim>\<open>batchReserveStock\<close>, over the stock as it is before the call.\<close>

lemma batchReserveStock_eq:
  "batchReserveStock p s orderId items ttl =
     (if list_all (\<lambda>(sku, q). q \<le> getStock p s sku) items
      then (case batch_apply s (batch_args p orderId ttl items) of
              (Some err, s') \<Rightarrow> (Inl err, s')
            | (None, s') \<Rightarrow>
                (Inr (BatchSuccess
                   (map (\<lambda>(sku, q). \<lparr>sku_of = extractSkuFromStockKey (p @ getStockKey sku),
                      success_of = (q \<le> getStock p s sku),
                      availableStock_of = getStock p s sku, requestedQuantity_of = q\<rparr>) items)),
                 s'))
      else (Inr (BatchFailure
                   (map (\<lambda>(sku, q). \<lparr>sku_of = extractSkuFromStockKey (p @ getStockKey sku),
                      success_of = (q \<le> getStock p s sku),
                      availableStock_of = getStock p s sku, requestedQuantity_of = q\<rparr>) items)),
            s))"
proof (cases "list_all (\<lambda>(sku, q). q \<le> getStock p s sku) items")
  case True
  then have pass:
    "list_all (\<lambda>(sk, rk, q, ttl). \<not> get_or_zero s sk < q) (batch_args p orderId ttl items)"
    by (simp add: all_pass_args)
  show ?thesis
    unfolding batchReserveStock_def batch_reserve_stock_lua_def
    using True pass
    by (simp add: batch_check_eq Let_def report_args filter_all_pass
        split: prod.splits option.splits del: map_map)
next
  case False
  then have pass:
    "\<not> list_all (\<lambda>(sk, rk, q, ttl). \<not> get_or_zero s sk < q) (batch_args p orderId ttl items)"
    by (simp add: all_pass_args)
  show ?thesis
    unfolding batchReserveStock_def batch_reserve_stock_lua_def
    using False pass
    by (simp add: batch_check_eq Let_def report_args del: map_map)
qed

lemma batchReserveStock_accepted:
  "list_all (\<lambda>(sku, q). q \<le> getStock p s sku) items \<Longrightarrow> 0 < ttl \<Longrightarrow>
   batchReserveStock p s orderId items ttl =
     (Inr (BatchSuccess
        (map (\<lambda>(sku, q). \<lparr>sku_of = extractSkuFromStockKey (p @ getStockKey sku),
           success_of = (q \<le> getStock p s sku),
           availableStock_of = getStock p s sku, requestedQuantity_of = q\<rparr>) items)),
      batch_writes s (batch_args p orderId ttl items))"
  by (simp add: batchReserveStock_eq batch_apply_accepted)

lemmas batch_defs = batchReserveStock_def batch_reserve_stock_lua_def batch_args_def
  extractSkuFromStockKey_def

lemma stock_A5_B0_eval:
  "stock_A5_B0 =
     \<lparr>now = 0, kv = [(''aether:stock:sku:SKU-A'', (5, None)),
                      (''aether:stock:sku:SKU-B'', (0, None))]\<rparr>"
  by (simp add: stock_A5_B0_def run_defs)

text \<open>
  C5. When some item of the batch asks for more than the stock of its SKU,
  \<^verbatim>\<open>batchReserveStock\<close> returns the store as it was (no counter decremented, no
  reservation key written, for any item) and answers failure with one entry per item,
  in order: whether that item alone had enough stock, the stock available and the
  quantity requested. The entry's \<^verbatim>\<open>sku\<close> field is what \<^verbatim>\<open>extractSkuFromStockKey\<close>
  makes of the stock key the script sends back, which carries the client's key
  prefix: under the default prefix the field reads \<^verbatim>\<open>aether:SKU-A\<close> for SKU-A.
\<close>

theorem batchReserveStock_all_or_nothing:
  assumes "\<exists>(sku, qty) \<in> set items. getStock p s sku < qty"
  shows
    "batchReserveStock p s orderId items ttl =
       (Inr (BatchFailure
          (map (\<lambda>(sku, qty). \<lparr>sku_of = extractSkuFromStockKey (p @ getStockKey sku),
                  success_of = (qty \<le> getStock p s sku),
                  availableStock_of = getStock p s sku, requestedQuantity_of = qty\<rparr>) items)),
        s)"
proof -
  from assms obtain sku qty where "(sku, qty) \<in> set items" and "getStock p s sku < qty"
    by auto
  then have "\<not> list_all (\<lambda>(sku, q). q \<le> getStock p s sku) items"
    by (force simp: list_all_iff)
  then show ?thesis
    by (simp add: batchReserveStock_eq)
qed

text \<open>
  The example of the specification under the default prefix: stock 5 of SKU-A and 0
  of SKU-B; the batch [(SKU-A, 3), (SKU-B, 1)] fails as a whole and SKU-A still has 5.
  The two entries name \<^verbatim>\<open>aether:SKU-A\<close> and \<^verbatim>\<open>aether:SKU-B\<close>.
\<close>

theorem batchReserveStock_all_or_nothing_witness:
  "getStock ''aether:'' stock_A5_B0 ''SKU-B'' < 1 \<and>
   batchReserveStock ''aether:'' stock_A5_B0 ''order-1'' [(''SKU-A'', 3), (''SKU-B'', 1)] 900 =
     (Inr (BatchFailure
        [\<lparr>sku_of = ''aether:SKU-A'', success_of = True,
          availableStock_of = 5, requestedQuantity_of = 3\<rparr>,
         \<lparr>sku_of = ''aether:SKU-B'', success_of = False,
          availableStock_of = 0, requestedQuantity_of = 1\<rparr>]),
      stock_A5_B0) \<and>
   getStock ''aether:''
     (snd (batchReserveStock ''aether:'' stock_A5_B0 ''order-1''
             [(''SKU-A'', 3), (''SKU-B'', 1)] 900))
     ''SKU-A'' = 5 \<and>
   map sku_of
     (case fst (batchReserveStock ''aether:'' stock_A5_B0 ''order-1''
                  [(''SKU-A'', 3), (''SKU-B'', 1)] 900) of
        Inr (BatchFailure entries) \<Rightarrow> entries | _ \<Rightarrow> []) \<noteq> [''SKU-A'', ''SKU-B'']"
proof -
  have stocks: "getStock ''aether:'' stock_A5_B0 ''SKU-A'' = 5"
               "getStock ''aether:'' stock_A5_B0 ''SKU-B'' = 0"
    unfolding stock_A5_B0_eval by (simp_all add: run_defs)
  have short: "\<exists>(sku, qty) \<in> set [(''SKU-A'', 3), (''SKU-B'', 1)].
                 getStock ''aether:'' stock_A5_B0 sku < qty"
    by (simp add: stocks)
  show ?thesis
    using batchReserveStock_all_or_nothing [OF short, of "''order-1''" 900]
    by (simp add: stocks extractSkuFromStockKey_def getStockKey_def)
qed

text \<open>
  C10, as stated: a batch that lists one SKU twice within the stock succeeds and
  leaves \<open>stock - q1 - q2\<close>. It does not hold for a TTL of 0: stock 5 and the batch
  [(SKU-A, 3), (SKU-A, 4)] with TTL 0 passes the first pass, decrements the ledger by
  3, is refused at the first \<^verbatim>\<open>SET ... EX 0\<close> and throws: the ledger reads 2 and no
  reservation is recorded.
\<close>

theorem same_sku_twice_zero_ttl_counterexample:
  "3 \<le> getStock ''aether:'' (initial_stock ''SKU-A'' 5) ''SKU-A'' \<and>
   4 \<le> getStock ''aether:'' (initial_stock ''SKU-A'' 5) ''SKU-A'' \<and>
   fst (batchReserveStock ''aether:'' (initial_stock ''SKU-A'' 5) ''order-1''
          [(''SKU-A'', 3), (''SKU-A'', 4)] 0) = Inl InvalidExpireTime \<and>
   getStock ''aether:''
     (snd (batchReserveStock ''aether:'' (initial_stock ''SKU-A'' 5) ''order-1''
             [(''SKU-A'', 3), (''SKU-A'', 4)] 0)) ''SKU-A'' = 2 \<and>
   redis_get
     (snd (batchReserveStock ''aether:'' (initial_stock ''SKU-A'' 5) ''order-1''
             [(''SKU-A'', 3), (''SKU-A'', 4)] 0))
     (''aether:'' @ getReservationKey ''order-1'' ''SKU-A'') = None"
  unfolding initial_stock_eval
  by (simp add: batch_defs run_defs)

text \<open>
  C10, amended: with a positive TTL. The first pass reads every item's stock from
  the store as it is before the batch writes anything. A batch that lists one SKU
  twice, with quantities \<open>q1\<close> and \<open>q2\<close> that are each within the stock, and a TTL
  above 0, passes: both entries report the stock before the batch as available, the
  call succeeds, and the ledger ends at \<open>stock - q1 - q2\<close>, below zero when
  \<open>q1 + q2\<close> exceeds the stock. Both items write the same reservation key, which ends
  up holding \<open>q2\<close>.
\<close>

theorem batchReserveStock_same_sku_twice:
  assumes "q1 \<le> getStock p s sku" and "q2 \<le> getStock p s sku" and "0 < ttl"
  shows
    "fst (batchReserveStock p s orderId [(sku, q1), (sku, q2)] ttl) =
       Inr (BatchSuccess
         [\<lparr>sku_of = extractSkuFromStockKey (p @ getStockKey sku), success_of = True,
           availableStock_of = getStock p s sku, requestedQuantity_of = q1\<rparr>,
          \<lparr>sku_of = extractSkuFromStockKey (p @ getStockKey sku), success_of = True,
           availableStock_of = getStock p s sku, requestedQuantity_of = q2\<rparr>]) \<and>
     getStock p (snd (batchReserveStock p s orderId [(sku, q1), (sku, q2)] ttl)) sku =
       getStock p s sku - q1 - q2 \<and>
     (getStock p s sku < q1 + q2 \<longrightarrow>
        getStock p (snd (batchReserveStock p s orderId [(sku, q1), (sku, q2)] ttl)) sku < 0) \<and>
     lookup (snd (batchReserveStock p s orderId [(sku, q1), (sku, q2)] ttl))
       (p @ getReservationKey orderId sku) = Some (q2, Some (now s + 1000 * nat ttl))"
proof -
  let ?s' = "put_ex
              (redis_decrby
                 (put_ex (redis_decrby s (p @ getStockKey sku) q1)
                    (p @ getReservationKey orderId sku) q1 ttl)
                 (p @ getStockKey sku) q2)
              (p @ getReservationKey orderId sku) q2 ttl"
  have r: "batchReserveStock p s orderId [(sku, q1), (sku, q2)] ttl =
      (Inr (BatchSuccess
         [\<lparr>sku_of = extractSkuFromStockKey (p @ getStockKey sku), success_of = True,
           availableStock_of = getStock p s sku, requestedQuantity_of = q1\<rparr>,
          \<lparr>sku_of = extractSkuFromStockKey (p @ getStockKey sku), success_of = True,
           availableStock_of = getStock p s sku, requestedQuantity_of = q2\<rparr>]), ?s')"
    using assms by (simp add: batchReserveStock_accepted) (simp add: batch_args_def)
  have stock: "getStock p ?s' sku = getStock p s sku - q1 - q2"
    by (simp add: getStock_after_reserve_write)
  have key: "lookup ?s' (p @ getReservationKey orderId sku) =
      Some (q2, Some (now s + 1000 * nat ttl))"
    by (simp add: lookup_put_ex now_cmds)
  show ?thesis
    by (simp add: r stock key)
qed

text \<open>
  Stock 5 and the batch [(SKU-A, 3), (SKU-A, 4)] for 900 seconds: success, and the
  ledger reads -2.
\<close>

theorem batchReserveStock_same_sku_twice_witness:
  "3 \<le> getStock ''aether:'' (initial_stock ''SKU-A'' 5) ''SKU-A'' \<and>
   4 \<le> getStock ''aether:'' (initial_stock ''SKU-A'' 5) ''SKU-A'' \<and> (0::int) < 900 \<and>
   getStock ''aether:'' (initial_stock ''SKU-A'' 5) ''SKU-A'' < 3 + 4 \<and>
   fst (batchReserveStock ''aether:'' (initial_stock ''SKU-A'' 5) ''order-1''
          [(''SKU-A'', 3), (''SKU-A'', 4)] 900) =
     Inr (BatchSuccess
       [\<lparr>sku_of = ''aether:SKU-A'', success_of = True,
         availableStock_of = 5, requestedQuantity_of = 3\<rparr>,
        \<lparr>sku_of = ''aether:SKU-A'', success_of = True,
         availableStock_of = 5, requestedQuantity_of = 4\<rparr>]) \<and>
   getStock ''aether:''
     (snd (batchReserveStock ''aether:'' (initial_stock ''SKU-A'' 5) ''order-1''
             [(''SKU-A'', 3), (''SKU-A'', 4)] 900)) ''SKU-A'' = - 2 \<and>
   redis_get
     (snd (batchReserveStock ''aether:'' (initial_stock ''SKU-A'' 5) ''order-1''
             [(''SKU-A'', 3), (''SKU-A'', 4)] 900))
     (''aether:'' @ getReservationKey ''order-1'' ''SKU-A'') = Some 4"
proof -
  have stock: "getStock ''aether:'' (initial_stock ''SKU-A'' 5) ''SKU-A'' = 5"
    unfolding initial_stock_eval by (simp add: run_defs)
  have le: "3 \<le> getStock ''aether:'' (initial_stock ''SKU-A'' 5) ''SKU-A''"
           "4 \<le> getStock ''aether:'' (initial_stock ''SKU-A'' 5) ''SKU-A''"
    by (simp_all add: stock)
  have pos: "(0::int) < 900" by simp
  show ?thesis
    using batchReserveStock_same_sku_twice [OF le pos, of "''order-1''"]
    by (simp add: stock redis_get_def extractSkuFromStockKey_def getStockKey_def)
qed

section \<open>The sweeper\<close>

lemma ttl_del_other: "k \<noteq> key \<Longrightarrow> redis_ttl (redis_del s key) k = redis_ttl s k"
  by (simp add: redis_ttl_def lookup_del now_del split: option.splits prod.splits)

lemma cleanup_loop_now: "now (snd (cleanup_loop p s ks c)) = now s"
  by (induction p s ks c rule: cleanup_loop.induct) (simp_all add: now_del)

text \<open>The loop deletes nothing but prefixed names of the list, and keeps the rest.\<close>

lemma cleanup_loop_lookup:
  "lookup (snd (cleanup_loop p s ks c)) K = lookup s K \<or>
   (lookup (snd (cleanup_loop p s ks c)) K = None \<and> (\<exists>k \<in> set ks. K = p @ k))"
proof (induction p s ks c rule: cleanup_loop.induct)
  case (1 p s cleanedCount)
  then show ?case by simp
next
  case (2 p s key keys cleanedCount)
  show ?case
  proof (cases "redis_ttl s (p @ key) \<le> 0")
    case True
    with 2 have ih:
      "lookup (snd (cleanup_loop p (redis_del s (p @ key)) keys (cleanedCount + 1))) K =
         lookup (redis_del s (p @ key)) K \<or>
       (lookup (snd (cleanup_loop p (redis_del s (p @ key)) keys (cleanedCount + 1))) K = None \<and>
        (\<exists>k \<in> set keys. K = p @ k))"
      by simp
    show ?thesis
    proof (cases "K = p @ key")
      case same: True
      with ih True show ?thesis by (auto simp: lookup_del)
    next
      case False
      with ih True show ?thesis by (auto simp: lookup_del)
    qed
  next
    case False
    with 2 show ?thesis by auto
  qed
qed

lemma exists_in_kv: "redis_exists s k \<Longrightarrow> k \<in> set (map fst (kv s))"
proof -
  assume "redis_exists s k"
  then have "map_of (kv s) k \<noteq> None"
    by (auto simp: redis_exists_def lookup_def split: option.splits)
  then show ?thesis
    by (simp add: map_of_eq_None_iff)
qed

lemma set_redis_keys: "k \<in> set (redis_keys s pat) \<longleftrightarrow> redis_exists s k \<and> prefix pat k"
  using exists_in_kv [of s k] by (auto simp: redis_keys_def)

lemma cleanup_lookup:
  "lookup (snd (cleanupExpiredReservations p s)) K = lookup s K \<or>
   (lookup (snd (cleanupExpiredReservations p s)) K = None \<and>
    prefix (p @ ''reservation:'') K)"
proof -
  have "prefix (p @ ''reservation:'') K"
    if "\<exists>k \<in> set (redis_keys s ''reservation:''). K = p @ k"
    using that by (auto simp: set_redis_keys)
  with cleanup_loop_lookup [of p s "redis_keys s ''reservation:''" 0 K]
  show ?thesis
    unfolding cleanupExpiredReservations_def by blast
qed

lemma cleanup_getStock: "getStock p (snd (cleanupExpiredReservations p s)) sku = getStock p s sku"
proof -
  have "\<not> prefix (p @ ''reservation:'') (p @ getStockKey sku)"
    by (simp add: getStockKey_def)
  with cleanup_lookup [of p s "p @ getStockKey sku"]
  have "lookup (snd (cleanupExpiredReservations p s)) (p @ getStockKey sku) =
        lookup s (p @ getStockKey sku)"
    by blast
  then show ?thesis
    by (simp add: getStock_def redis_get_def)
qed

text \<open>
  The KEYS pattern is sent without the key prefix that every key of the service
  carries. A store whose keys all carry the prefix has no key under the pattern
  \<^verbatim>\<open>reservation:*\<close>, unless the prefix itself begins like \<^verbatim>\<open>reservation:\<close> (the
  default \<^verbatim>\<open>aether:\<close> does not): on such a store the sweeper lists nothing,
  deletes nothing and returns 0.
\<close>

lemma owned_lists_nothing:
  assumes "owned p s"
    and "\<not> prefix p ''reservation:''" and "\<not> prefix ''reservation:'' p"
  shows "redis_keys s ''reservation:'' = []"
proof -
  have "k \<notin> set (redis_keys s ''reservation:'')" for k
  proof
    assume "k \<in> set (redis_keys s ''reservation:'')"
    then have e: "redis_exists s k" and r: "prefix ''reservation:'' k"
      by (simp_all add: set_redis_keys)
    from e have "k \<in> set (map fst (kv s))" by (rule exists_in_kv)
    with assms(1) have "prefix p k"
      by (auto simp: owned_def list_all_iff)
    with r have "prefix ''reservation:'' p \<or> prefix p ''reservation:''"
      by (rule prefix_same_cases)
    with assms(2,3) show False by blast
  qed
  then show ?thesis
    by (cases "redis_keys s ''reservation:''") auto
qed

lemma owned_cleanup:
  assumes "owned p s"
    and "\<not> prefix p ''reservation:''" and "\<not> prefix ''reservation:'' p"
  shows "cleanupExpiredReservations p s = (0, s)"
  using owned_lists_nothing [OF assms] by (simp add: cleanupExpiredReservations_def)

lemma order1_held_4_ending_eval:
  "order1_held_4_ending =
     \<lparr>now = 700, kv = [(''aether:stock:sku:SKU-1'', (6, None)),
                        (''aether:reservation:order-1:SKU-1'', (4, Some 1000))]\<rparr>"
  by (simp add: order1_held_4_ending_def run_defs)

lemma order1_held_4_lapsed_eval:
  "order1_held_4_lapsed =
     \<lparr>now = 2000, kv = [(''aether:stock:sku:SKU-1'', (6, None)),
                         (''aether:reservation:order-1:SKU-1'', (4, Some 1000))]\<rparr>"
  by (simp add: order1_held_4_lapsed_def run_defs)

lemma cleanup_lapsed_eval:
  "cleanupExpiredReservations ''aether:'' order1_held_4_lapsed = (0, order1_held_4_lapsed)"
  unfolding order1_held_4_lapsed_eval
  by (simp add: cleanupExpiredReservations_def redis_keys_def run_defs)

lemma cleanup_ending_eval:
  "cleanupExpiredReservations ''aether:'' order1_held_4_ending = (0, order1_held_4_ending)"
  unfolding order1_held_4_ending_eval
  by (simp add: cleanupExpiredReservations_def redis_keys_def run_defs)

text \<open>
  C2, as the specification states it: after a reservation's TTL has lapsed, a run of
  the sweeper puts the reserved quantity back on the ledger. It does not hold. Stock
  10, order-1 reserves 4 for one second (ledger 6); two seconds later the reservation
  is gone, and one run of the sweeper, or two, leave the ledger at 6.
\<close>

theorem sweeper_restores_nothing_counterexample:
  "\<not> hasReservation ''aether:'' order1_held_4_lapsed ''order-1'' ''SKU-1'' \<and>
   getStock ''aether:'' order1_held_4_lapsed ''SKU-1'' = 6 \<and>
   getStock ''aether:'' (snd (cleanupExpiredReservations ''aether:'' order1_held_4_lapsed))
     ''SKU-1'' = 6 \<and>
   getStock ''aether:'' (snd (cleanupExpiredReservations ''aether:'' order1_held_4_lapsed))
     ''SKU-1'' \<noteq> getStock ''aether:'' order1_held_4_lapsed ''SKU-1'' + 4 \<and>
   getStock ''aether:''
     (snd (cleanupExpiredReservations ''aether:''
             (snd (cleanupExpiredReservations ''aether:'' order1_held_4_lapsed)))) ''SKU-1'' = 6"
  unfolding cleanup_lapsed_eval snd_conv
  unfolding order1_held_4_lapsed_eval
  by (simp add: run_defs)

text \<open>
  C2, amended. \<^verbatim>\<open>cleanupExpiredReservations\<close>, called by the worker's job or
  directly, writes with DEL only, and only on names that begin with the key prefix
  followed by \<^verbatim>\<open>reservation:\<close>. It leaves every other key and so every stock counter
  as it was: the ledger is never incremented, by the first run or by any later one,
  and the quantity of a reservation whose TTL has lapsed is not put back.
\<close>

theorem cleanupExpiredReservations_only_deletes:
  "(\<forall>sku. getStock p (snd (cleanupExpiredReservations p s)) sku = getStock p s sku) \<and>
   (\<forall>sku. getStock p (snd (job_cleanupExpiredReservations p s)) sku = getStock p s sku) \<and>
   (\<forall>k. lookup (snd (cleanupExpiredReservations p s)) k = lookup s k \<or>
        (lookup (snd (cleanupExpiredReservations p s)) k = None \<and>
         prefix (p @ ''reservation:'') k))"
proof (intro conjI allI)
  fix sku
  show "getStock p (snd (cleanupExpiredReservations p s)) sku = getStock p s sku"
    by (rule cleanup_getStock)
next
  fix sku
  show "getStock p (snd (job_cleanupExpiredReservations p s)) sku = getStock p s sku"
    by (simp add: job_cleanupExpiredReservations_def case_prod_beta cleanup_getStock)
next
  fix k
  show "lookup (snd (cleanupExpiredReservations p s)) k = lookup s k \<or>
        (lookup (snd (cleanupExpiredReservations p s)) k = None \<and>
         prefix (p @ ''reservation:'') k)"
    by (rule cleanup_lookup)
qed

text \<open>
  Under the default prefix, 0.7 seconds after a reservation of 4 for one second its
  TTL reads 0, and 2 seconds after it is gone. Either way the sweeper returns 0;
  the reservation that is still there stays, and the ledger stays at 6.
\<close>

theorem cleanupExpiredReservations_only_deletes_witness:
  "redis_ttl order1_held_4_ending (''aether:'' @ getReservationKey ''order-1'' ''SKU-1'') = 0 \<and>
   cleanupExpiredReservations ''aether:'' order1_held_4_ending = (0, order1_held_4_ending) \<and>
   hasReservation ''aether:'' (snd (cleanupExpiredReservations ''aether:'' order1_held_4_ending))
     ''order-1'' ''SKU-1'' \<and>
   getStock ''aether:'' (snd (cleanupExpiredReservations ''aether:'' order1_held_4_ending))
     ''SKU-1'' = getStock ''aether:'' order1_held_4_ending ''SKU-1'' \<and>
   getStock ''aether:'' order1_held_4_ending ''SKU-1'' = 6 \<and>
   cleanupExpiredReservations ''aether:'' order1_held_4_lapsed = (0, order1_held_4_lapsed) \<and>
   getStock ''aether:'' (snd (cleanupExpiredReservations ''aether:'' order1_held_4_lapsed))
     ''SKU-1'' = getStock ''aether:'' order1_held_4_lapsed ''SKU-1'' \<and>
   getStock ''aether:'' order1_held_4_lapsed ''SKU-1'' = 6"
proof -
  have ending: "getStock ''aether:'' (snd (cleanupExpiredReservations ''aether:'' order1_held_4_ending))
     ''SKU-1'' = getStock ''aether:'' order1_held_4_ending ''SKU-1''"
    using cleanupExpiredReservations_only_deletes [of "''aether:''" order1_held_4_ending]
    by blast
  have lapsed: "getStock ''aether:'' (snd (cleanupExpiredReservations ''aether:'' order1_held_4_lapsed))
     ''SKU-1'' = getStock ''aether:'' order1_held_4_lapsed ''SKU-1''"
    using cleanupExpiredReservations_only_deletes [of "''aether:''" order1_held_4_lapsed]
    by blast
  have rest:
    "redis_ttl order1_held_4_ending (''aether:'' @ getReservationKey ''order-1'' ''SKU-1'') = 0"
    "hasReservation ''aether:'' (snd (cleanupExpiredReservations ''aether:'' order1_held_4_ending))
       ''order-1'' ''SKU-1''"
    "getStock ''aether:'' order1_held_4_ending ''SKU-1'' = 6"
    "getStock ''aether:'' order1_held_4_lapsed ''SKU-1'' = 6"
    unfolding cleanup_ending_eval snd_conv
    unfolding order1_held_4_lapsed_eval order1_held_4_ending_eval
    by (simp_all add: run_defs)
  from ending lapsed rest cleanup_ending_eval cleanup_lapsed_eval show ?thesis
    by blast
qed

section \<open>Conservation of stock\<close>







































end
